theory Spec2Isabelle
  imports Main "HOL-Library.Word"
begin

section \<open>Data model\<close>

text \<open>
  The hook \<open>useTasks\<close> (the version with the realtime channel and the optimistic
  mutations) is embedded here. A JavaScript string is a sequence of UTF-16 code units, and
  \<open>s.length\<close> counts code units, so a string is a list of 16-bit words.
  The messages of \<open>TaskError\<close> are constants of the program and are kept as HOL
  strings.
\<close>

type_synonym jsstring = "16 word list"

datatype priority = Low | Normal | High

text \<open>A value of type \<open>string | null\<close> that may also hold \<open>undefined\<close> at run time.\<close>

datatype 'a nullable = Undefined | Null | Value 'a

text \<open>
  The type \<open>Task\<close> of \<open>lib/supabase.ts\<close>; the field \<open>id\<close> is called \<open>task_id\<close>. The
  four fields that a patch can overwrite are modelled with the values they can hold at
  run time: the spread \<open>{ ...task, ...updates }\<close> stores \<open>undefined\<close> in a field whose key
  holds \<open>undefined\<close> in the patch. For \<open>title\<close> and \<open>priority\<close>, \<open>None\<close> is \<open>undefined\<close>.
\<close>

record task =
  task_id :: jsstring
  user_id :: jsstring
  title :: "jsstring option"
  description :: "jsstring nullable"
  is_complete :: bool
  priority :: "priority option"
  due_date :: "jsstring nullable"
  created_at :: jsstring
  updated_at :: jsstring

text \<open>
  \<open>CreateTaskInput\<close>: an optional key is \<open>None\<close> when it is absent or holds
  \<open>undefined\<close>; \<open>createTask\<close> reads it through \<open>?.\<close>, \<open>&&\<close> and \<open>||\<close> only, which do not
  tell the two apart.
\<close>

record create_task_input =
  i_title :: jsstring
  i_description :: "jsstring option"
  i_priority :: "priority option"
  i_due_date :: "jsstring option"

text \<open>
  \<open>Partial<CreateTaskInput>\<close>, the patch of an update. A key is missing, or it is there
  and holds \<open>undefined\<close> (which the type allows and \<open>TaskItem.handleSave\<close> passes for
  an empty description), or it holds a value.
\<close>

datatype 'a key = Missing | Undef | Given 'a

record task_patch =
  p_title :: "jsstring key"
  p_description :: "jsstring key"
  p_priority :: "priority key"
  p_due_date :: "jsstring key"

text \<open>
  The object that \<open>createTask\<close> sends to the store; here \<open>None\<close> is \<open>null\<close>
  (\<open>|| null\<close>).
\<close>

record new_task =
  n_user_id :: jsstring
  n_title :: jsstring
  n_description :: "jsstring option"
  n_priority :: priority
  n_due_date :: "jsstring option"

record task_stats =
  total :: int
  completed :: int
  pending :: int
  overdue :: int

text \<open>
  \<open>TaskError\<close> (message and optional code), the error object of a store response, and the
  response itself: \<open>{ data, error }\<close>, where \<open>data\<close> may be \<open>null\<close>.
\<close>

datatype task_error = TaskError (message: string) (code: "string option")

datatype pg_error = PgError (pg_code: string)

record response =
  data :: "task list option"
  err :: "pg_error option"

text \<open>
  An awaited call of the store either resolves with a response or throws. What it throws
  is not a \<open>TaskError\<close>, so a \<open>catch\<close> block takes the second branch of
  \<open>err instanceof TaskError ? err.message : ...\<close>.
\<close>

datatype outcome = Replied response | Threw

text \<open>What an async function of the hook throws to its caller.\<close>

datatype exn = OfTaskError task_error | OtherError

text \<open>
  A change event of the realtime channel: \<open>INSERT\<close> and \<open>UPDATE\<close> carry the row
  \<open>payload.new\<close>, \<open>DELETE\<close> carries \<open>payload.old.id\<close>, the only part of \<open>payload.old\<close>
  the handler reads.
\<close>

datatype payload = INSERT task | UPDATE task | DELETE jsstring

text \<open>The calls the hook issues to the remote store, with their filters.\<close>

datatype request =
    Select jsstring
  | Insert new_task
  | Update task_patch jsstring jsstring
  | UpdateComplete bool jsstring "jsstring option"
  | Delete jsstring jsstring

section \<open>String helpers\<close>

text \<open>
  \<open>String.prototype.trim\<close> removes white space and line terminators from both ends.
  The code units are those of ECMAScript's WhiteSpace and LineTerminator productions.
\<close>

definition isWhiteSpace :: "16 word \<Rightarrow> bool" where
  "isWhiteSpace c \<longleftrightarrow>
     c = 0x0009 \<or> c = 0x000A \<or> c = 0x000B \<or> c = 0x000C \<or> c = 0x000D \<or> c = 0x0020 \<or>
     c = 0x00A0 \<or> c = 0x1680 \<or> (0x2000 \<le> c \<and> c \<le> 0x200A) \<or> c = 0x2028 \<or>
     c = 0x2029 \<or> c = 0x202F \<or> c = 0x205F \<or> c = 0x3000 \<or> c = 0xFEFF"

definition trim :: "jsstring \<Rightarrow> jsstring" where
  "trim s = rev (dropWhile isWhiteSpace (rev (dropWhile isWhiteSpace s)))"

text \<open>\<open>!userId\<close>: \<open>undefined\<close> and the empty string are both falsy.\<close>

fun absent :: "jsstring option \<Rightarrow> bool" where
  "absent None = True"
| "absent (Some u) = (u = [])"

section \<open>Merging a change event\<close>

text \<open>The three updater functions that the channel handler passes to \<open>setTasks\<close>.\<close>

fun mergeEvent :: "payload \<Rightarrow> task list \<Rightarrow> task list" where
  "mergeEvent (INSERT newTask) prev =
     (if list_ex (\<lambda>t. task_id t = task_id newTask) prev then prev else newTask # prev)"
| "mergeEvent (UPDATE new) prev =
     map (\<lambda>task. if task_id task = task_id new then new else task) prev"
| "mergeEvent (DELETE old_id) prev =
     filter (\<lambda>task. task_id task \<noteq> old_id) prev"


section \<open>Hook state and derived statistics\<close>

text \<open>
  The four \<open>useState\<close> cells and the two refs of the hook. \<open>channelRef\<close> holds the user
  id of the filter of the open channel, or \<open>None\<close> for \<open>null\<close>.
\<close>

record sync =
  tasks :: "task list"
  loading :: bool
  error :: "string option"
  stats :: task_stats
  isMountedRef :: bool
  channelRef :: "jsstring option"

definition initial_sync :: sync where
  "initial_sync =
     \<lparr>tasks = [], loading = True, error = None,
      stats = \<lparr>total = 0, completed = 0, pending = 0, overdue = 0\<rparr>,
      isMountedRef = True, channelRef = None\<rparr>"

text \<open>
  The predicate of the second filter in \<open>fetchTasks\<close>:
  \<open>!t.is_complete && t.due_date && new Date(t.due_date) < new Date()\<close>.
  Parsing a date string is the JavaScript runtime's; it is the parameter \<open>parseDate\<close>,
  giving the time value in milliseconds, or \<open>None\<close> for an invalid date, which compares
  false with everything. \<open>now\<close> is the time value of \<open>new Date()\<close>.
\<close>

definition isOverdue :: "(jsstring \<Rightarrow> int option) \<Rightarrow> int \<Rightarrow> task \<Rightarrow> bool" where
  "isOverdue parseDate now t \<longleftrightarrow>
     \<not> is_complete t \<and>
     (case due_date t of
        Undefined \<Rightarrow> False
      | Null \<Rightarrow> False
      | Value d \<Rightarrow> d \<noteq> [] \<and> (case parseDate d of None \<Rightarrow> False | Some ms \<Rightarrow> ms < now))"

text \<open>The block under \<open>// Calculate stats\<close>; \<open>data?.length || 0\<close> is 0 for \<open>null\<close>.\<close>

definition computeStats ::
  "(jsstring \<Rightarrow> int option) \<Rightarrow> int \<Rightarrow> task list option \<Rightarrow> task_stats" where
  "computeStats parseDate now d =
     (let total = (case d of None \<Rightarrow> 0 | Some rows \<Rightarrow> int (length rows));
          completed = (case d of None \<Rightarrow> 0 | Some rows \<Rightarrow> int (length (filter is_complete rows)));
          pending = total - completed;
          overdue = (case d of None \<Rightarrow> 0
                     | Some rows \<Rightarrow> int (length (filter (isOverdue parseDate now) rows)))
      in \<lparr>total = total, completed = completed, pending = pending, overdue = overdue\<rparr>)"

section \<open>fetchTasks\<close>

text \<open>
  An async function is cut at its \<open>await\<close>: the part before it returns the new state and
  the request it issues, the part after it takes the outcome of the awaited call.
\<close>

definition fetchTasks_start :: "jsstring option \<Rightarrow> sync \<Rightarrow> sync \<times> request option" where
  "fetchTasks_start uid s =
     (case uid of
        None \<Rightarrow> (s\<lparr>loading := False\<rparr>, None)
      | Some u \<Rightarrow>
          if u = [] then (s\<lparr>loading := False\<rparr>, None)
          else (s\<lparr>error := None\<rparr>, Some (Select u)))"

definition fetchTasks_resume ::
  "(jsstring \<Rightarrow> int option) \<Rightarrow> int \<Rightarrow> outcome \<Rightarrow> sync \<Rightarrow> sync" where
  "fetchTasks_resume parseDate now oc s =
     (let s1 =
        (case oc of
           Threw \<Rightarrow>
             if isMountedRef s then s\<lparr>error := Some ''Failed to fetch tasks''\<rparr> else s
         | Replied r \<Rightarrow>
             (case err r of
                Some e \<Rightarrow>
                  if isMountedRef s then s\<lparr>error := Some ''Failed to fetch tasks''\<rparr> else s
              | None \<Rightarrow>
                  if isMountedRef s
                  then s\<lparr>tasks := (case data r of None \<Rightarrow> [] | Some rows \<Rightarrow> rows),
                          stats := computeStats parseDate now (data r)\<rparr>
                  else s))
      in if isMountedRef s1 then s1\<lparr>loading := False\<rparr> else s1)"

section \<open>The subscription effect\<close>

text \<open>The cleanup function returned by the effect.\<close>

definition cleanup :: "sync \<Rightarrow> sync" where
  "cleanup s = s\<lparr>isMountedRef := False, channelRef := None\<rparr>"

text \<open>The body of the effect: it starts the initial fetch and opens the channel.\<close>

definition effect :: "jsstring option \<Rightarrow> sync \<Rightarrow> sync \<times> request option" where
  "effect uid s =
     (let s1 = s\<lparr>isMountedRef := True\<rparr>
      in if absent uid then (s1\<lparr>loading := False\<rparr>, None)
         else (case fetchTasks_start uid s1 of (s2, rq) \<Rightarrow> (s2\<lparr>channelRef := uid\<rparr>, rq)))"

text \<open>The handler of the channel.\<close>

definition handlePayload :: "payload \<Rightarrow> sync \<Rightarrow> sync" where
  "handlePayload p s =
     (if \<not> isMountedRef s then s else s\<lparr>tasks := mergeEvent p (tasks s)\<rparr>)"

section \<open>createTask\<close>

text \<open>
  The guards before the \<open>try\<close> throw to the caller: \<open>Inl\<close>. Otherwise the error slot is
  cleared and the insert is issued.
\<close>

definition createTask_start ::
  "jsstring option \<Rightarrow> create_task_input \<Rightarrow> sync \<Rightarrow> task_error + (sync \<times> request)" where
  "createTask_start uid input s =
     (case uid of
        None \<Rightarrow> Inl (TaskError ''User not authenticated'' None)
      | Some u \<Rightarrow>
          if u = [] then Inl (TaskError ''User not authenticated'' None)
          else
            let title = trim (i_title input) in
            if title = [] then Inl (TaskError ''Task title is required'' None)
            else if length title > 500
              then Inl (TaskError ''Task title must be 500 characters or less'' None)
            else if (case i_description input of
                       None \<Rightarrow> False | Some d \<Rightarrow> d \<noteq> [] \<and> length d > 2000)
              then Inl (TaskError ''Task description must be 2000 characters or less'' None)
            else
              Inr (s\<lparr>error := None\<rparr>,
                   Insert
                     \<lparr>n_user_id = u,
                      n_title = title,
                      n_description =
                        (case i_description input of
                           None \<Rightarrow> None
                         | Some d \<Rightarrow> if trim d = [] then None else Some (trim d)),
                      n_priority = (case i_priority input of None \<Rightarrow> Normal | Some p \<Rightarrow> p),
                      n_due_date =
                        (case i_due_date input of
                           None \<Rightarrow> None
                         | Some d \<Rightarrow> if d = [] then None else Some d)\<rparr>))"

text \<open>
  After the insert: when the call threw, or replied with an error, the message is recorded
  and the error rethrown; otherwise \<open>fetchTasks\<close> is awaited, which never throws. The
  result is the state, the request of the refresh if one is issued, and the error thrown to
  the caller if any.
\<close>

definition createTask_resume ::
  "jsstring option \<Rightarrow> outcome \<Rightarrow> sync \<Rightarrow> sync \<times> request option \<times> exn option" where
  "createTask_resume uid oc s =
     (case oc of
        Threw \<Rightarrow> (s\<lparr>error := Some ''Failed to create task''\<rparr>, None, Some OtherError)
      | Replied r \<Rightarrow>
          (case err r of
             Some e \<Rightarrow>
               (s\<lparr>error := Some ''Failed to create task''\<rparr>, None,
                Some (OfTaskError (TaskError ''Failed to create task'' (Some (pg_code e)))))
           | None \<Rightarrow> (case fetchTasks_start uid s of (s1, rq) \<Rightarrow> (s1, rq, None))))"

section \<open>updateTask\<close>

text \<open>
  \<open>{ ...task, ...updates }\<close>: every key that the patch has overwrites the task's field,
  also when it holds \<open>undefined\<close>; a missing key leaves the field as it is.
\<close>

definition applyPatch :: "task_patch \<Rightarrow> task \<Rightarrow> task" where
  "applyPatch updates t =
     t\<lparr>title :=
         (case p_title updates of Missing \<Rightarrow> title t | Undef \<Rightarrow> None | Given x \<Rightarrow> Some x),
       description :=
         (case p_description updates of
            Missing \<Rightarrow> description t | Undef \<Rightarrow> Undefined | Given x \<Rightarrow> Value x),
       priority :=
         (case p_priority updates of
            Missing \<Rightarrow> priority t | Undef \<Rightarrow> None | Given x \<Rightarrow> Some x),
       due_date :=
         (case p_due_date updates of
            Missing \<Rightarrow> due_date t | Undef \<Rightarrow> Undefined | Given x \<Rightarrow> Value x)\<rparr>"

text \<open>
  The title is validated under \<open>updates.title !== undefined\<close>, that is, only when the
  key holds a string.
\<close>

definition updateTask_start ::
  "jsstring option \<Rightarrow> jsstring \<Rightarrow> task_patch \<Rightarrow> sync \<Rightarrow> task_error + (sync \<times> request)" where
  "updateTask_start uid taskId updates s =
     (case uid of
        None \<Rightarrow> Inl (TaskError ''User not authenticated'' None)
      | Some u \<Rightarrow>
          if u = [] then Inl (TaskError ''User not authenticated'' None)
          else if (case p_title updates of Given t \<Rightarrow> trim t = [] | _ \<Rightarrow> False)
            then Inl (TaskError ''Task title cannot be empty'' None)
          else if (case p_title updates of Given t \<Rightarrow> length (trim t) > 500 | _ \<Rightarrow> False)
            then Inl (TaskError ''Task title must be 500 characters or less'' None)
          else
            Inr (s\<lparr>error := None,
                   tasks := map (\<lambda>task. if task_id task = taskId then applyPatch updates task
                                         else task) (tasks s)\<rparr>,
                 Update updates taskId u))"

text \<open>
  \<open>updateTask_fail\<close> is the \<open>throw\<close> in the branch \<open>if (error)\<close> with the \<open>catch\<close> that
  takes it: it follows the \<open>await fetchTasks()\<close> of that branch.
\<close>

definition updateTask_fail :: "pg_error \<Rightarrow> sync \<Rightarrow> sync \<times> task_error" where
  "updateTask_fail e s =
     (s\<lparr>error := Some ''Failed to update task''\<rparr>,
      TaskError ''Failed to update task'' (Some (pg_code e)))"

text \<open>
  After the update. When the call threw, the \<open>catch\<close> records the message and rethrows;
  nothing is fetched. When it replied with an error, \<open>fetchTasks\<close> is awaited first: the
  result then carries the request of that fetch, and \<open>updateTask_fail\<close> follows its
  completion (at once, when \<open>fetchTasks\<close> returns without a request).
\<close>

definition updateTask_resume ::
  "jsstring option \<Rightarrow> outcome \<Rightarrow> sync \<Rightarrow> sync \<times> request option \<times> exn option" where
  "updateTask_resume uid oc s =
     (case oc of
        Threw \<Rightarrow> (s\<lparr>error := Some ''Failed to update task''\<rparr>, None, Some OtherError)
      | Replied r \<Rightarrow>
          (case err r of
             None \<Rightarrow> (s, None, None)
           | Some e \<Rightarrow>
               (case fetchTasks_start uid s of
                  (s1, None) \<Rightarrow>
                    (case updateTask_fail e s1 of (s2, t) \<Rightarrow> (s2, None, Some (OfTaskError t)))
                | (s1, Some rq) \<Rightarrow> (s1, Some rq, None))))"

section \<open>toggleTask\<close>

definition toggleTask_start ::
  "jsstring option \<Rightarrow> jsstring \<Rightarrow> bool \<Rightarrow> sync \<Rightarrow> sync \<times> request" where
  "toggleTask_start uid taskId currentStatus s =
     (s\<lparr>tasks := map (\<lambda>task. if task_id task = taskId
                              then task\<lparr>is_complete := \<not> currentStatus\<rparr> else task) (tasks s)\<rparr>,
      UpdateComplete (\<not> currentStatus) taskId uid)"

text \<open>
  After the update. The revert stands in the branch \<open>if (error)\<close>, before the \<open>throw\<close>;
  when the awaited call itself threw, control is in the \<open>catch\<close> at once and only the
  message is recorded. The second component is the error that leaves \<open>toggleTask\<close>; its
  \<open>catch\<close> does not rethrow.
\<close>

definition toggleTask_resume ::
  "jsstring \<Rightarrow> bool \<Rightarrow> outcome \<Rightarrow> sync \<Rightarrow> sync \<times> exn option" where
  "toggleTask_resume taskId currentStatus oc s =
     (case oc of
        Threw \<Rightarrow> (s\<lparr>error := Some ''Failed to toggle task''\<rparr>, None)
      | Replied r \<Rightarrow>
          (case err r of
             None \<Rightarrow> (s, None)
           | Some e \<Rightarrow>
               (s\<lparr>tasks := map (\<lambda>task. if task_id task = taskId
                                        then task\<lparr>is_complete := currentStatus\<rparr> else task)
                              (tasks s),
                  error := Some ''Failed to toggle task''\<rparr>,
                None)))"

section \<open>deleteTask\<close>

text \<open>
  \<open>originalTasks\<close> is a copy of the \<open>tasks\<close> of the render that created the callback; it
  is passed on to the part after the \<open>await\<close>.
\<close>

definition deleteTask_start ::
  "jsstring option \<Rightarrow> jsstring \<Rightarrow> sync \<Rightarrow> task_error + (sync \<times> request)" where
  "deleteTask_start uid taskId s =
     (case uid of
        None \<Rightarrow> Inl (TaskError ''User not authenticated'' None)
      | Some u \<Rightarrow>
          if u = [] then Inl (TaskError ''User not authenticated'' None)
          else
            Inr (s\<lparr>error := None,
                   tasks := filter (\<lambda>task. task_id task \<noteq> taskId) (tasks s)\<rparr>,
                 Delete taskId u))"

text \<open>
  After the delete: the snapshot is restored in the branch \<open>if (error)\<close> only; when the
  call threw, the \<open>catch\<close> records the message and rethrows.
\<close>

definition deleteTask_resume ::
  "task list \<Rightarrow> outcome \<Rightarrow> sync \<Rightarrow> sync \<times> exn option" where
  "deleteTask_resume originalTasks oc s =
     (case oc of
        Threw \<Rightarrow> (s\<lparr>error := Some ''Failed to delete task''\<rparr>, Some OtherError)
      | Replied r \<Rightarrow>
          (case err r of
             None \<Rightarrow> (s, None)
           | Some e \<Rightarrow>
               (s\<lparr>tasks := originalTasks, error := Some ''Failed to delete task''\<rparr>,
                Some (OfTaskError (TaskError ''Failed to delete task'' (Some (pg_code e)))))))"

section \<open>The hook as a state machine\<close>

text \<open>
  The JavaScript event loop runs one callback at a time. A state of the machine is the
  hook's state, the \<open>userId\<close> of the last render, and the continuations that wait for a
  response of the store, each with the variables its closure captured. Callbacks are
  called from the last render, so they capture its \<open>userId\<close> and its \<open>tasks\<close>.
\<close>

datatype continuation =
    K_fetch
  | K_create "jsstring option"
  | K_update "jsstring option"
  | K_update_refetch pg_error
  | K_toggle jsstring bool
  | K_delete "task list"

record machine =
  hook :: sync
  userId :: "jsstring option"
  inflight :: "continuation list"

text \<open>
  What can happen: a render with another \<open>userId\<close>, the unmount, a change event, a call of
  one of the five functions the hook returns, and the end of the call that the \<open>n\<close>-th
  waiting continuation awaits, at time \<open>now\<close>: it resolves with a response (\<open>Resolve\<close>)
  or it throws (\<open>Reject\<close>).
\<close>

datatype event =
    Rerender "jsstring option"
  | Unmount
  | Push payload
  | CallCreate create_task_input
  | CallUpdate jsstring task_patch
  | CallToggle jsstring bool
  | CallDelete jsstring
  | CallRefresh
  | Resolve nat response int
  | Reject nat int

definition awaiting :: "request option \<Rightarrow> continuation \<Rightarrow> continuation list" where
  "awaiting rq k = (case rq of None \<Rightarrow> [] | Some _ \<Rightarrow> [k])"

text \<open>The first render: the initial state cells, then the effect.\<close>

definition init :: "jsstring option \<Rightarrow> machine" where
  "init uid =
     (case effect uid initial_sync of
        (s, rq) \<Rightarrow> \<lparr>hook = s, userId = uid, inflight = awaiting rq K_fetch\<rparr>)"

text \<open>
  The effect returns its cleanup only when \<open>userId\<close> is present; React runs it before
  the next effect and at the unmount.
\<close>

definition teardown :: "machine \<Rightarrow> sync" where
  "teardown m = (if absent (userId m) then hook m else cleanup (hook m))"

text \<open>
  The continuation that follows the \<open>await fetchTasks()\<close> in the error branch of
  \<open>updateTask\<close> keeps the error of the reply.
\<close>

fun refetched :: "outcome \<Rightarrow> request option \<Rightarrow> continuation list" where
  "refetched (Replied r) (Some rq) =
     (case err r of None \<Rightarrow> [] | Some e \<Rightarrow> [K_update_refetch e])"
| "refetched oc rq = []"

definition continue ::
  "(jsstring \<Rightarrow> int option) \<Rightarrow> int \<Rightarrow> continuation \<Rightarrow> outcome \<Rightarrow> sync \<Rightarrow>
   sync \<times> continuation list" where
  "continue parseDate now k oc s =
     (case k of
        K_fetch \<Rightarrow> (fetchTasks_resume parseDate now oc s, [])
      | K_create uid \<Rightarrow>
          (case createTask_resume uid oc s of (s1, rq, thrown) \<Rightarrow> (s1, awaiting rq K_fetch))
      | K_update uid \<Rightarrow>
          (case updateTask_resume uid oc s of (s1, rq, thrown) \<Rightarrow> (s1, refetched oc rq))
      | K_update_refetch e \<Rightarrow>
          (fst (updateTask_fail e (fetchTasks_resume parseDate now oc s)), [])
      | K_toggle taskId currentStatus \<Rightarrow>
          (fst (toggleTask_resume taskId currentStatus oc s), [])
      | K_delete originalTasks \<Rightarrow>
          (fst (deleteTask_resume originalTasks oc s), []))"

text \<open>The \<open>n\<close>-th waiting continuation runs and leaves the list.\<close>

definition settle ::
  "(jsstring \<Rightarrow> int option) \<Rightarrow> int \<Rightarrow> nat \<Rightarrow> outcome \<Rightarrow> machine \<Rightarrow> machine" where
  "settle parseDate now n oc m =
     (if n < length (inflight m)
      then (case continue parseDate now (inflight m ! n) oc (hook m) of
              (s, ks) \<Rightarrow>
                m\<lparr>hook := s,
                  inflight := take n (inflight m) @ drop (Suc n) (inflight m) @ ks\<rparr>)
      else m)"

fun step :: "(jsstring \<Rightarrow> int option) \<Rightarrow> machine \<Rightarrow> event \<Rightarrow> machine" where
  "step parseDate m (Rerender uid) =
     (if uid = userId m then m
      else (case effect uid (teardown m) of
              (s, rq) \<Rightarrow> \<lparr>hook = s, userId = uid,
                          inflight = inflight m @ awaiting rq K_fetch\<rparr>))"
| "step parseDate m Unmount = m\<lparr>hook := teardown m\<rparr>"
| "step parseDate m (Push p) = m\<lparr>hook := handlePayload p (hook m)\<rparr>"
| "step parseDate m (CallCreate input) =
     (case createTask_start (userId m) input (hook m) of
        Inl thrown \<Rightarrow> m
      | Inr (s, rq) \<Rightarrow> m\<lparr>hook := s, inflight := inflight m @ [K_create (userId m)]\<rparr>)"
| "step parseDate m (CallUpdate taskId updates) =
     (case updateTask_start (userId m) taskId updates (hook m) of
        Inl thrown \<Rightarrow> m
      | Inr (s, rq) \<Rightarrow> m\<lparr>hook := s, inflight := inflight m @ [K_update (userId m)]\<rparr>)"
| "step parseDate m (CallToggle taskId currentStatus) =
     (case toggleTask_start (userId m) taskId currentStatus (hook m) of
        (s, rq) \<Rightarrow> m\<lparr>hook := s, inflight := inflight m @ [K_toggle taskId currentStatus]\<rparr>)"
| "step parseDate m (CallDelete taskId) =
     (case deleteTask_start (userId m) taskId (hook m) of
        Inl thrown \<Rightarrow> m
      | Inr (s, rq) \<Rightarrow>
          m\<lparr>hook := s, inflight := inflight m @ [K_delete (tasks (hook m))]\<rparr>)"
| "step parseDate m CallRefresh =
     (case fetchTasks_start (userId m) (hook m) of
        (s, rq) \<Rightarrow> m\<lparr>hook := s, inflight := inflight m @ awaiting rq K_fetch\<rparr>)"
| "step parseDate m (Resolve n r now) = settle parseDate now n (Replied r) m"
| "step parseDate m (Reject n now) = settle parseDate now n Threw m"

definition run :: "(jsstring \<Rightarrow> int option) \<Rightarrow> jsstring option \<Rightarrow> event list \<Rightarrow> machine" where
  "run parseDate uid evs = foldl (step parseDate) (init uid) evs"

text \<open>
  The remote store keys its rows by \<open>id\<close>: the rows of one response have distinct ids.
\<close>

fun keyed :: "event \<Rightarrow> bool" where
  "keyed (Resolve n r now) =
     (case data r of None \<Rightarrow> True | Some rows \<Rightarrow> distinct (map task_id rows))"
| "keyed _ = True"

definition stats_consistent :: "task_stats \<Rightarrow> bool" where
  "stats_consistent st \<longleftrightarrow> total st = completed st + pending st \<and> overdue st \<le> pending st"

text \<open>
  The invariant behind the uniqueness of ids: the collection has distinct ids, and so has
  every snapshot that a waiting \<open>deleteTask\<close> may restore.
\<close>

fun snapshot_keyed :: "continuation \<Rightarrow> bool" where
  "snapshot_keyed (K_delete originalTasks) = distinct (map task_id originalTasks)"
| "snapshot_keyed _ = True"

definition ids_unique :: "machine \<Rightarrow> bool" where
  "ids_unique m \<longleftrightarrow>
     distinct (map task_id (tasks (hook m))) \<and> (\<forall>k\<in>set (inflight m). snapshot_keyed k)"

text \<open>A task with the given id, owner and completion flag, for the concrete runs below.\<close>

definition example_task :: "jsstring \<Rightarrow> jsstring \<Rightarrow> bool \<Rightarrow> task" where
  "example_task i u c =
     \<lparr>task_id = i, user_id = u, title = Some [0x61], description = Null, is_complete = c,
      priority = Some Normal, due_date = Null, created_at = [], updated_at = []\<rparr>"

section \<open>Merge idempotence\<close>

lemma mergeEvent_insert_twice:
  "mergeEvent (INSERT r) (mergeEvent (INSERT r) ts) = mergeEvent (INSERT r) ts"
  by (simp add: list_ex_iff)

lemma mergeEvent_update_twice:
  "mergeEvent (UPDATE r) (mergeEvent (UPDATE r) ts) = mergeEvent (UPDATE r) ts"
  by (induction ts) simp_all

lemma mergeEvent_delete_twice:
  "mergeEvent (DELETE i) (mergeEvent (DELETE i) ts) = mergeEvent (DELETE i) ts"
  by simp

lemma mergeEvent_twice: "mergeEvent p (mergeEvent p ts) = mergeEvent p ts"
proof (cases p)
  case (INSERT r)
  then show ?thesis using mergeEvent_insert_twice by simp
next
  case (UPDATE r)
  then show ?thesis using mergeEvent_update_twice by simp
next
  case (DELETE i)
  then show ?thesis using mergeEvent_delete_twice by simp
qed

lemma mergeEvent_update_absent:
  "\<forall>t\<in>set ts. task_id t \<noteq> task_id r \<Longrightarrow> mergeEvent (UPDATE r) ts = ts"
  by (induction ts) simp_all

lemma mergeEvent_delete_absent:
  "\<forall>t\<in>set ts. task_id t \<noteq> i \<Longrightarrow> mergeEvent (DELETE i) ts = ts"
  by (induction ts) simp_all

lemma handlePayload_twice:
  "handlePayload p (handlePayload p s) = handlePayload p s"
  by (simp add: handlePayload_def mergeEvent_twice)

text \<open>
  C1. Applying the same change event twice gives the same collection as applying it once,
  for every collection and every event, on the updater functions and on the handler.
  An insert whose id already occurs leaves the collection unchanged and is prepended
  otherwise; an update replaces, position by position, the tasks whose id is the pushed
  row's and changes nothing when no task has that id; a delete keeps exactly the tasks
  with another id and changes nothing when no task has that id.
\<close>

theorem merge_event_idempotent:
  "mergeEvent p (mergeEvent p ts) = mergeEvent p ts \<and>
   handlePayload p (handlePayload p s) = handlePayload p s \<and>
   ((\<exists>t\<in>set ts. task_id t = task_id r) \<longrightarrow> mergeEvent (INSERT r) ts = ts) \<and>
   ((\<forall>t\<in>set ts. task_id t \<noteq> task_id r) \<longrightarrow> mergeEvent (INSERT r) ts = r # ts) \<and>
   length (mergeEvent (UPDATE r) ts) = length ts \<and>
   (\<forall>n<length ts. mergeEvent (UPDATE r) ts ! n =
      (if task_id (ts ! n) = task_id r then r else ts ! n)) \<and>
   ((\<forall>t\<in>set ts. task_id t \<noteq> task_id r) \<longrightarrow> mergeEvent (UPDATE r) ts = ts) \<and>
   mergeEvent (DELETE i) ts = filter (\<lambda>t. task_id t \<noteq> i) ts \<and>
   (\<forall>t\<in>set (mergeEvent (DELETE i) ts). task_id t \<noteq> i) \<and>
   ((\<forall>t\<in>set ts. task_id t \<noteq> i) \<longrightarrow> mergeEvent (DELETE i) ts = ts)"
proof -
  have ins1: "(\<exists>t\<in>set ts. task_id t = task_id r) \<longrightarrow> mergeEvent (INSERT r) ts = ts"
    by (simp add: list_ex_iff)
  have ins2: "(\<forall>t\<in>set ts. task_id t \<noteq> task_id r) \<longrightarrow> mergeEvent (INSERT r) ts = r # ts"
    by (auto simp add: list_ex_iff)
  have upd: "\<forall>n<length ts. mergeEvent (UPDATE r) ts ! n =
      (if task_id (ts ! n) = task_id r then r else ts ! n)"
    by simp
  have del: "\<forall>t\<in>set (mergeEvent (DELETE i) ts). task_id t \<noteq> i"
    by simp
  show ?thesis
    using ins1 ins2 upd del mergeEvent_twice handlePayload_twice
      mergeEvent_update_absent mergeEvent_delete_absent
    by simp
qed

theorem merge_event_idempotent_witness:
  "mergeEvent (INSERT (example_task [1] [7] False)) [example_task [1] [7] True]
     = [example_task [1] [7] True] \<and>
   mergeEvent (INSERT (example_task [2] [7] False)) [example_task [1] [7] True]
     = [example_task [2] [7] False, example_task [1] [7] True] \<and>
   mergeEvent (UPDATE (example_task [1] [7] False)) [example_task [1] [7] True] ! 0
     = example_task [1] [7] False \<and>
   mergeEvent (UPDATE (example_task [2] [7] False)) [example_task [1] [7] True]
     = [example_task [1] [7] True] \<and>
   mergeEvent (DELETE [1]) [example_task [1] [7] True] = [] \<and>
   mergeEvent (DELETE [2]) [example_task [1] [7] True] = [example_task [1] [7] True]"
  using merge_event_idempotent [of "INSERT (example_task [1] [7] False)"
      "[example_task [1] [7] True]" initial_sync "example_task [1] [7] False" "[1]"]
    merge_event_idempotent [of "INSERT (example_task [2] [7] False)"
      "[example_task [1] [7] True]" initial_sync "example_task [2] [7] False" "[2]"]
  by (simp add: example_task_def)


section \<open>Statistics\<close>


lemma overdue_le_incomplete:
  "length (filter (isOverdue pd now) rows) + length (filter is_complete rows) \<le> length rows"
  by (induction rows) (auto simp add: isOverdue_def)

lemma computeStats_consistent: "stats_consistent (computeStats pd now d)"
proof (cases d)
  case None
  then show ?thesis by (simp add: computeStats_def stats_consistent_def)
next
  case (Some rows)
  have "int (length (filter (isOverdue pd now) rows))
          \<le> int (length rows) - int (length (filter is_complete rows))"
    using overdue_le_incomplete [of pd now rows] by linarith
  with Some show ?thesis by (simp add: computeStats_def stats_consistent_def Let_def)
qed

lemma stats_fetchTasks_start:
  "stats (fst (fetchTasks_start uid s)) = stats s"
  by (simp add: fetchTasks_start_def split: option.splits)

lemma stats_fetchTasks_resume:
  "stats_consistent (stats s) \<Longrightarrow> stats_consistent (stats (fetchTasks_resume pd now oc s))"
  by (simp add: fetchTasks_resume_def Let_def computeStats_consistent
      split: option.splits outcome.splits)

lemma stats_effect: "stats (fst (effect uid s)) = stats s"
  by (simp add: effect_def fetchTasks_start_def Let_def split: option.splits prod.splits)

lemma stats_teardown: "stats (teardown m) = stats (hook m)"
  by (simp add: teardown_def cleanup_def)

lemma stats_handlePayload: "stats (handlePayload p s) = stats s"
  by (simp add: handlePayload_def)

lemma stats_createTask_start:
  "createTask_start uid input s = Inr (s1, rq) \<Longrightarrow> stats s1 = stats s"
  by (auto simp add: createTask_start_def Let_def split: option.splits if_splits)

lemma stats_createTask_resume:
  "stats (fst (createTask_resume uid oc s)) = stats s"
  by (simp add: createTask_resume_def fetchTasks_start_def
      split: option.splits prod.splits outcome.splits)

lemma stats_updateTask_start:
  "updateTask_start uid taskId updates s = Inr (s1, rq) \<Longrightarrow> stats s1 = stats s"
  by (auto simp add: updateTask_start_def split: option.splits if_splits)

lemma stats_updateTask_fail: "stats (fst (updateTask_fail e s)) = stats s"
  by (simp add: updateTask_fail_def)

lemma stats_updateTask_resume:
  "stats (fst (updateTask_resume uid oc s)) = stats s"
  by (simp add: updateTask_resume_def fetchTasks_start_def updateTask_fail_def
      split: option.splits prod.splits outcome.splits)

lemma stats_toggleTask_start: "stats (fst (toggleTask_start uid taskId c s)) = stats s"
  by (simp add: toggleTask_start_def)

lemma stats_toggleTask_resume: "stats (fst (toggleTask_resume taskId c oc s)) = stats s"
  by (simp add: toggleTask_resume_def split: option.splits outcome.splits)

lemma stats_deleteTask_start:
  "deleteTask_start uid taskId s = Inr (s1, rq) \<Longrightarrow> stats s1 = stats s"
  by (auto simp add: deleteTask_start_def split: option.splits if_splits)

lemma stats_deleteTask_resume: "stats (fst (deleteTask_resume snap oc s)) = stats s"
  by (simp add: deleteTask_resume_def split: option.splits outcome.splits)

lemma stats_continue:
  assumes "stats_consistent (stats s)"
  shows "stats_consistent (stats (fst (continue pd now k oc s)))"
proof (cases k)
  case K_fetch
  then show ?thesis using assms by (simp add: continue_def stats_fetchTasks_resume)
next
  case (K_create uid)
  then show ?thesis
    using assms stats_createTask_resume [of uid oc s]
    by (auto simp add: continue_def split: prod.splits)
next
  case (K_update uid)
  then show ?thesis
    using assms stats_updateTask_resume [of uid oc s]
    by (auto simp add: continue_def split: prod.splits)
next
  case (K_update_refetch e)
  then show ?thesis
    using assms by (simp add: continue_def stats_updateTask_fail stats_fetchTasks_resume)
next
  case (K_toggle taskId c)
  then show ?thesis using assms by (simp add: continue_def stats_toggleTask_resume)
next
  case (K_delete snap)
  then show ?thesis using assms by (simp add: continue_def stats_deleteTask_resume)
qed

lemma stats_settle:
  assumes "stats_consistent (stats (hook m))"
  shows "stats_consistent (stats (hook (settle pd now n oc m)))"
  using stats_continue [OF assms, of pd now "inflight m ! n" oc] assms
  by (auto simp add: settle_def split: prod.splits)

lemma stats_step:
  assumes "stats_consistent (stats (hook m))"
  shows "stats_consistent (stats (hook (step pd m e)))"
proof (cases e)
  case (Rerender uid)
  then show ?thesis
    using assms stats_effect [of uid "teardown m"]
    by (auto simp add: stats_teardown split: prod.splits)
next
  case Unmount
  then show ?thesis using assms by (simp add: stats_teardown)
next
  case (Push p)
  then show ?thesis using assms by (simp add: stats_handlePayload)
next
  case (CallCreate input)
  then show ?thesis
    using assms by (auto split: sum.splits dest: stats_createTask_start)
next
  case (CallUpdate taskId updates)
  then show ?thesis
    using assms by (auto split: sum.splits dest: stats_updateTask_start)
next
  case (CallToggle taskId c)
  then show ?thesis
    using assms stats_toggleTask_start [of "userId m" taskId c "hook m"]
    by (auto split: prod.splits)
next
  case (CallDelete taskId)
  then show ?thesis
    using assms by (auto split: sum.splits dest: stats_deleteTask_start)
next
  case CallRefresh
  then show ?thesis
    using assms stats_fetchTasks_start [of "userId m" "hook m"]
    by (auto split: prod.splits)
next
  case (Resolve n r now)
  then show ?thesis using assms by (simp add: stats_settle)
next
  case (Reject n now)
  then show ?thesis using assms by (simp add: stats_settle)
qed

lemma stats_foldl_step:
  "stats_consistent (stats (hook m)) \<Longrightarrow>
   stats_consistent (stats (hook (foldl (step pd) m evs)))"
  by (induction evs arbitrary: m) (simp_all add: stats_step)

lemma stats_init: "stats (hook (init uid)) = stats initial_sync"
  using stats_effect [of uid initial_sync] by (auto simp add: init_def split: prod.splits)

text \<open>
  C3. In every state the hook reaches from its first render, by any sequence of renders,
  change events, calls and responses, the exposed statistics satisfy
  \<open>total = completed + pending\<close> and \<open>overdue \<le> pending\<close>.
\<close>

theorem stats_consistent_reachable:
  "stats_consistent (stats (hook (run parseDate uid evs)))"
  unfolding run_def
  by (rule stats_foldl_step) (simp add: stats_init initial_sync_def stats_consistent_def)



section \<open>Unique ids\<close>


lemma ids_mergeEvent:
  "distinct (map task_id ts) \<Longrightarrow> distinct (map task_id (mergeEvent p ts))"
proof (cases p)
  case (INSERT r)
  assume "distinct (map task_id ts)"
  with INSERT show ?thesis by (auto simp add: list_ex_iff)
next
  case (UPDATE r)
  assume d: "distinct (map task_id ts)"
  have h: "map task_id (mergeEvent (UPDATE r) ts) = map task_id ts"
    by (induction ts) simp_all
  show ?thesis unfolding UPDATE h by (rule d)
next
  case (DELETE i)
  assume "distinct (map task_id ts)"
  with DELETE show ?thesis by (simp add: distinct_map_filter)
qed

lemma ids_map_same:
  "(\<And>t. task_id (f t) = task_id t) \<Longrightarrow> map task_id (map f ts) = map task_id ts"
  by (induction ts) simp_all

lemma ids_fetchTasks_start: "tasks (fst (fetchTasks_start uid s)) = tasks s"
  by (simp add: fetchTasks_start_def split: option.splits)

lemma ids_fetchTasks_resume:
  assumes "distinct (map task_id (tasks s))"
    and "case oc of
           Replied r \<Rightarrow> (case data r of None \<Rightarrow> True | Some rows \<Rightarrow> distinct (map task_id rows))
         | Threw \<Rightarrow> True"
  shows "distinct (map task_id (tasks (fetchTasks_resume pd now oc s)))"
  using assms
  by (auto simp add: fetchTasks_resume_def Let_def split: option.splits outcome.splits)

lemma ids_effect: "tasks (fst (effect uid s)) = tasks s"
  by (simp add: effect_def fetchTasks_start_def Let_def split: option.splits prod.splits)

lemma ids_teardown: "tasks (teardown m) = tasks (hook m)"
  by (simp add: teardown_def cleanup_def)

lemma ids_handlePayload:
  "distinct (map task_id (tasks s)) \<Longrightarrow> distinct (map task_id (tasks (handlePayload p s)))"
  by (simp add: handlePayload_def ids_mergeEvent)

lemma ids_createTask_start:
  "createTask_start uid input s = Inr (s1, rq) \<Longrightarrow> tasks s1 = tasks s"
  by (auto simp add: createTask_start_def Let_def split: option.splits if_splits)

lemma ids_createTask_resume: "tasks (fst (createTask_resume uid oc s)) = tasks s"
  by (simp add: createTask_resume_def fetchTasks_start_def
      split: option.splits prod.splits outcome.splits)

lemma ids_updateTask_start:
  assumes "updateTask_start uid taskId updates s = Inr (s1, rq)"
  shows "map task_id (tasks s1) = map task_id (tasks s)"
proof -
  have "tasks s1 = map (\<lambda>task. if task_id task = taskId then applyPatch updates task
                                 else task) (tasks s)"
    using assms by (auto simp add: updateTask_start_def split: option.splits if_splits)
  then show ?thesis by (simp add: ids_map_same applyPatch_def)
qed

lemma ids_updateTask_fail: "tasks (fst (updateTask_fail e s)) = tasks s"
  by (simp add: updateTask_fail_def)

lemma ids_updateTask_resume: "tasks (fst (updateTask_resume uid oc s)) = tasks s"
  by (simp add: updateTask_resume_def fetchTasks_start_def updateTask_fail_def
      split: option.splits prod.splits outcome.splits)

lemma ids_toggleTask_start:
  "map task_id (tasks (fst (toggleTask_start uid taskId c s))) = map task_id (tasks s)"
  by (simp add: toggleTask_start_def ids_map_same)

lemma ids_toggleTask_resume:
  "map task_id (tasks (fst (toggleTask_resume taskId c oc s))) = map task_id (tasks s)"
  by (simp add: toggleTask_resume_def ids_map_same split: option.splits outcome.splits)

lemma ids_deleteTask_start:
  assumes "deleteTask_start uid taskId s = Inr (s1, rq)"
    and "distinct (map task_id (tasks s))"
  shows "distinct (map task_id (tasks s1))"
proof -
  have "tasks s1 = filter (\<lambda>task. task_id task \<noteq> taskId) (tasks s)"
    using assms(1) by (auto simp add: deleteTask_start_def split: option.splits if_splits)
  with assms(2) show ?thesis by (simp add: distinct_map_filter)
qed

lemma ids_deleteTask_resume:
  assumes "distinct (map task_id (tasks s))" and "distinct (map task_id snap)"
  shows "distinct (map task_id (tasks (fst (deleteTask_resume snap oc s))))"
  using assms by (simp add: deleteTask_resume_def split: option.splits outcome.splits)

lemma refetched_no_snapshot: "\<forall>k\<in>set (refetched oc rq). snapshot_keyed k"
  by (cases "(oc, rq)" rule: refetched.cases) (auto split: option.splits)

lemma awaiting_no_snapshot: "\<forall>k\<in>set (awaiting rq K_fetch). snapshot_keyed k"
  by (simp add: awaiting_def split: option.splits)

lemma continue_no_snapshot:
  "\<forall>k'\<in>set (snd (continue pd now k oc s)). snapshot_keyed k'"
  using refetched_no_snapshot awaiting_no_snapshot
  by (cases k) (auto simp add: continue_def split: prod.splits)

lemma ids_continue:
  assumes "distinct (map task_id (tasks s))"
    and "snapshot_keyed k"
    and "case oc of
           Replied r \<Rightarrow> (case data r of None \<Rightarrow> True | Some rows \<Rightarrow> distinct (map task_id rows))
         | Threw \<Rightarrow> True"
  shows "distinct (map task_id (tasks (fst (continue pd now k oc s))))"
proof (cases k)
  case K_fetch
  then show ?thesis using assms by (simp add: continue_def ids_fetchTasks_resume)
next
  case (K_create uid)
  then show ?thesis
    using assms(1) ids_createTask_resume [of uid oc s]
    by (auto simp add: continue_def split: prod.splits)
next
  case (K_update uid)
  then show ?thesis
    using assms(1) ids_updateTask_resume [of uid oc s]
    by (auto simp add: continue_def split: prod.splits)
next
  case (K_update_refetch e)
  then show ?thesis
    using assms by (simp add: continue_def ids_updateTask_fail ids_fetchTasks_resume)
next
  case (K_toggle taskId c)
  then show ?thesis using assms(1) by (simp add: continue_def ids_toggleTask_resume)
next
  case (K_delete snap)
  then show ?thesis using assms(1,2) by (simp add: continue_def ids_deleteTask_resume)
qed

lemma ids_settle:
  assumes inv: "ids_unique m"
    and env: "case oc of
           Replied r \<Rightarrow> (case data r of None \<Rightarrow> True | Some rows \<Rightarrow> distinct (map task_id rows))
         | Threw \<Rightarrow> True"
  shows "ids_unique (settle pd now n oc m)"
proof (cases "n < length (inflight m)")
  case False
  with inv show ?thesis by (simp add: settle_def)
next
  case True
  obtain s ks where c: "continue pd now (inflight m ! n) oc (hook m) = (s, ks)"
    by (cases "continue pd now (inflight m ! n) oc (hook m)")
  have k: "snapshot_keyed (inflight m ! n)"
    using inv True by (simp add: ids_unique_def)
  have "distinct (map task_id (tasks (hook m)))"
    using inv by (simp add: ids_unique_def)
  from ids_continue [OF this k env, of pd now] c
  have t: "distinct (map task_id (tasks s))" by simp
  have ks: "\<forall>k'\<in>set ks. snapshot_keyed k'"
    using continue_no_snapshot [of pd now "inflight m ! n" oc "hook m"] c by simp
  have rest: "\<forall>k'\<in>set (take n (inflight m) @ drop (Suc n) (inflight m)). snapshot_keyed k'"
    using inv by (auto simp add: ids_unique_def dest: in_set_takeD in_set_dropD)
  show ?thesis
    using True c t ks rest by (auto simp add: ids_unique_def settle_def)
qed

lemma ids_step:
  assumes inv: "ids_unique m" and env: "keyed e"
  shows "ids_unique (step pd m e)"
proof (cases e)
  case (Rerender uid)
  then show ?thesis
    using inv ids_effect [of uid "teardown m"] awaiting_no_snapshot
    by (auto simp add: ids_unique_def ids_teardown split: prod.splits)
next
  case Unmount
  then show ?thesis using inv by (simp add: ids_unique_def ids_teardown)
next
  case (Push p)
  then show ?thesis using inv by (simp add: ids_unique_def ids_handlePayload)
next
  case (CallCreate input)
  then show ?thesis
    using inv by (auto simp add: ids_unique_def split: sum.splits dest: ids_createTask_start)
next
  case (CallUpdate taskId updates)
  then show ?thesis
    using inv by (auto simp add: ids_unique_def split: sum.splits dest: ids_updateTask_start)
next
  case (CallToggle taskId c)
  then show ?thesis
    using inv ids_toggleTask_start [of "userId m" taskId c "hook m"]
    by (auto simp add: ids_unique_def split: prod.splits)
next
  case (CallDelete taskId)
  then show ?thesis
    using inv by (auto simp add: ids_unique_def split: sum.splits dest: ids_deleteTask_start)
next
  case CallRefresh
  then show ?thesis
    using inv ids_fetchTasks_start [of "userId m" "hook m"] awaiting_no_snapshot
    by (auto simp add: ids_unique_def split: prod.splits)
next
  case (Resolve n r now)
  have "case data r of None \<Rightarrow> True | Some rows \<Rightarrow> distinct (map task_id rows)"
    using env Resolve by simp
  then have "ids_unique (settle pd now n (Replied r) m)"
    using inv by (intro ids_settle) simp_all
  with Resolve show ?thesis by simp
next
  case (Reject n now)
  have "ids_unique (settle pd now n Threw m)"
    using inv by (rule ids_settle) simp
  with Reject show ?thesis by simp
qed

lemma ids_foldl_step:
  "ids_unique m \<Longrightarrow> \<forall>e\<in>set evs. keyed e \<Longrightarrow> ids_unique (foldl (step pd) m evs)"
  by (induction evs arbitrary: m) (simp_all add: ids_step)

lemma ids_init: "ids_unique (init uid)"
  using ids_effect [of uid initial_sync] awaiting_no_snapshot
  by (auto simp add: init_def ids_unique_def initial_sync_def split: prod.splits)

text \<open>
  C2. In every state the hook reaches from its first render, by any sequence of renders,
  change events, calls (with their optimistic effects) and responses (with their reverts),
  every task id occurs at most once in the collection. The store keys its rows by id, so
  the rows of each response are taken to have distinct ids (\<open>keyed\<close>).
\<close>

theorem ids_unique_reachable:
  assumes "\<forall>e\<in>set evs. keyed e"
  shows "distinct (map task_id (tasks (hook (run parseDate uid evs))))"
proof -
  have "ids_unique (run parseDate uid evs)"
    unfolding run_def using ids_init assms by (rule ids_foldl_step)
  then show ?thesis by (simp add: ids_unique_def)
qed

theorem ids_unique_reachable_witness:
  "list_all keyed
     [Resolve 0 \<lparr>data = Some [example_task [1] [7] False, example_task [2] [7] True],
                 err = None\<rparr> 0,
      Push (INSERT (example_task [1] [7] True)),
      Push (INSERT (example_task [3] [7] False)),
      CallDelete [2],
      Resolve 0 \<lparr>data = None, err = Some (PgError ''500'')\<rparr> 0] \<and>
   tasks (hook (run (\<lambda>d. None) (Some [7])
     [Resolve 0 \<lparr>data = Some [example_task [1] [7] False, example_task [2] [7] True],
                 err = None\<rparr> 0,
      Push (INSERT (example_task [1] [7] True)),
      Push (INSERT (example_task [3] [7] False)),
      CallDelete [2],
      Resolve 0 \<lparr>data = None, err = Some (PgError ''500'')\<rparr> 0]))
    = [example_task [3] [7] False, example_task [1] [7] False, example_task [2] [7] True] \<and>
   distinct (map task_id (tasks (hook (run (\<lambda>d. None) (Some [7])
     [Resolve 0 \<lparr>data = Some [example_task [1] [7] False, example_task [2] [7] True],
                 err = None\<rparr> 0,
      Push (INSERT (example_task [1] [7] True)),
      Push (INSERT (example_task [3] [7] False)),
      CallDelete [2],
      Resolve 0 \<lparr>data = None, err = Some (PgError ''500'')\<rparr> 0]))))"
proof -
  let ?evs = "[Resolve 0 \<lparr>data = Some [example_task [1] [7] False, example_task [2] [7] True],
                          err = None\<rparr> 0,
               Push (INSERT (example_task [1] [7] True)),
               Push (INSERT (example_task [3] [7] False)),
               CallDelete [2],
               Resolve 0 \<lparr>data = None, err = Some (PgError ''500'')\<rparr> 0]"
  have k: "\<forall>e\<in>set ?evs. keyed e"
    by (simp add: example_task_def)
  have t: "tasks (hook (run (\<lambda>d. None) (Some [7]) ?evs))
    = [example_task [3] [7] False, example_task [1] [7] False, example_task [2] [7] True]"
    by (simp add: run_def init_def effect_def fetchTasks_start_def initial_sync_def
        awaiting_def continue_def settle_def fetchTasks_resume_def handlePayload_def
        deleteTask_start_def deleteTask_resume_def example_task_def Let_def)
  show ?thesis
    using k t ids_unique_reachable [OF k, of "\<lambda>d. None" "Some [7]"] by simp
qed

section \<open>Optimistic toggle and its rollback\<close>










section \<open>Validation in createTask\<close>

lemma trim_length_le: "length (trim d) \<le> length d"
proof -
  have "length (trim d) \<le> length (dropWhile isWhiteSpace d)"
    using length_dropWhile_le [of isWhiteSpace "rev (dropWhile isWhiteSpace d)"]
    by (simp add: trim_def)
  also have "\<dots> \<le> length d" by (rule length_dropWhile_le)
  finally show ?thesis .
qed

lemma trim_spaces: "trim (replicate n 0x20) = []"
  by (simp add: trim_def isWhiteSpace_def)

lemma dropWhile_spaces_letter:
  "dropWhile isWhiteSpace (replicate n 0x20 @ [0x61]) = [0x61]"
  by (induction n) (simp_all add: isWhiteSpace_def)

lemma trim_letter_spaces: "trim (0x61 # replicate n 0x20) = [0x61]"
  by (simp add: trim_def dropWhile_spaces_letter) (simp add: isWhiteSpace_def)

lemma trim_letters: "trim (replicate n 0x78) = replicate n 0x78"
  by (simp add: trim_def isWhiteSpace_def)


text \<open>
  C7, as amended. \<open>createTask\<close> throws before it touches the state or the store (the
  result is \<open>Inl\<close>: no new state, no request) whenever the user id is absent, the trimmed
  title is empty or longer than 500, or the description is present with an untrimmed
  length above 2000; that covers every description whose trimmed length is above 2000.
  When the user id is present, the trimmed title is non-empty and at most 500 long, and
  the description is absent or at most 2000 long untrimmed, nothing is thrown: the error
  slot is cleared and one insert with the trimmed title is issued.
\<close>

theorem createTask_validation:
  "((absent uid \<or> trim (i_title input) = [] \<or> length (trim (i_title input)) > 500 \<or>
     (\<exists>d. i_description input = Some d \<and> length (trim d) > 2000) \<or>
     (\<exists>d. i_description input = Some d \<and> length d > 2000))
    \<longrightarrow> isl (createTask_start uid input s)) \<and>
   ((\<not> absent uid \<and> trim (i_title input) \<noteq> [] \<and> length (trim (i_title input)) \<le> 500 \<and>
     (\<forall>d. i_description input = Some d \<longrightarrow> length d \<le> 2000))
    \<longrightarrow> (\<exists>nt. createTask_start uid input s = Inr (s\<lparr>error := None\<rparr>, Insert nt) \<and>
              Some (n_user_id nt) = uid \<and> n_title nt = trim (i_title input)))"
proof (intro conjI impI)
  assume bad: "absent uid \<or> trim (i_title input) = [] \<or> length (trim (i_title input)) > 500 \<or>
     (\<exists>d. i_description input = Some d \<and> length (trim d) > 2000) \<or>
     (\<exists>d. i_description input = Some d \<and> length d > 2000)"
  have long: "length d > 2000" if "length (trim d) > 2000" for d
    using that trim_length_le [of d] by linarith
  from bad have "absent uid \<or> trim (i_title input) = [] \<or> length (trim (i_title input)) > 500 \<or>
     (\<exists>d. i_description input = Some d \<and> d \<noteq> [] \<and> length d > 2000)"
    using long by fastforce
  then show "isl (createTask_start uid input s)"
    by (cases uid) (auto simp add: createTask_start_def Let_def)
next
  assume ok: "\<not> absent uid \<and> trim (i_title input) \<noteq> [] \<and>
     length (trim (i_title input)) \<le> 500 \<and>
     (\<forall>d. i_description input = Some d \<longrightarrow> length d \<le> 2000)"
  then obtain u where u: "uid = Some u" "u \<noteq> []" by (cases uid) auto
  have desc: "\<not> (case i_description input of None \<Rightarrow> False
                  | Some d \<Rightarrow> d \<noteq> [] \<and> length d > 2000)"
    using ok by (auto split: option.splits)
  show "\<exists>nt. createTask_start uid input s = Inr (s\<lparr>error := None\<rparr>, Insert nt) \<and>
              Some (n_user_id nt) = uid \<and> n_title nt = trim (i_title input)"
    using ok u desc by (simp add: createTask_start_def Let_def)
qed

theorem createTask_validation_witness:
  "isl (createTask_start (Some [7])
          \<lparr>i_title = replicate 3 0x20, i_description = None, i_priority = None,
           i_due_date = None\<rparr> initial_sync) \<and>
   isl (createTask_start (Some [7])
          \<lparr>i_title = replicate 501 0x78, i_description = None, i_priority = None,
           i_due_date = None\<rparr> initial_sync) \<and>
   createTask_start (Some [7])
     \<lparr>i_title = [0x20, 0x61], i_description = None, i_priority = None, i_due_date = None\<rparr>
     (initial_sync\<lparr>error := Some ''Failed to fetch tasks''\<rparr>)
   = Inr (initial_sync,
          Insert \<lparr>n_user_id = [7], n_title = [0x61], n_description = None,
                  n_priority = Normal, n_due_date = None\<rparr>)"
proof -
  have a: "isl (createTask_start (Some [7])
          \<lparr>i_title = replicate 3 0x20, i_description = None, i_priority = None,
           i_due_date = None\<rparr> initial_sync)"
    using createTask_validation [of "Some [7]"
        "\<lparr>i_title = replicate 3 0x20, i_description = None, i_priority = None,
          i_due_date = None\<rparr>" initial_sync]
    by (simp add: trim_spaces)
  have b: "isl (createTask_start (Some [7])
          \<lparr>i_title = replicate 501 0x78, i_description = None, i_priority = None,
           i_due_date = None\<rparr> initial_sync)"
    using createTask_validation [of "Some [7]"
        "\<lparr>i_title = replicate 501 0x78, i_description = None, i_priority = None,
          i_due_date = None\<rparr>" initial_sync]
    by (simp add: trim_letters)
  have t: "trim [0x20, 0x61] = [0x61]"
    by (simp add: trim_def isWhiteSpace_def)
  have c: "createTask_start (Some [7])
     \<lparr>i_title = [0x20, 0x61], i_description = None, i_priority = None, i_due_date = None\<rparr>
     (initial_sync\<lparr>error := Some ''Failed to fetch tasks''\<rparr>)
   = Inr (initial_sync,
          Insert \<lparr>n_user_id = [7], n_title = [0x61], n_description = None,
                  n_priority = Normal, n_due_date = None\<rparr>)"
    using createTask_validation [of "Some [7]"
        "\<lparr>i_title = [0x20, 0x61], i_description = None, i_priority = None,
          i_due_date = None\<rparr>" "initial_sync\<lparr>error := Some ''Failed to fetch tasks''\<rparr>"]
    by (simp add: t createTask_start_def initial_sync_def)
  from a b c show ?thesis by (intro conjI)
qed

text \<open>
  The claim as stated fails: a description of one letter followed by 2000 spaces has
  trimmed length 1, the title is valid, and \<open>createTask\<close> still throws, because the guard
  reads \<open>input.description.length\<close>.
\<close>

theorem createTask_trimmed_description_counterexample:
  "trim [0x61] \<noteq> [] \<and> length (trim [0x61]) \<le> 500 \<and>
   length (trim (0x61 # replicate 2000 0x20)) \<le> 2000 \<and>
   createTask_start (Some [7])
     \<lparr>i_title = [0x61], i_description = Some (0x61 # replicate 2000 0x20),
      i_priority = None, i_due_date = None\<rparr> initial_sync
   = Inl (TaskError ''Task description must be 2000 characters or less'' None)"
proof -
  have t: "trim [0x61] = [0x61]"
    by (simp add: trim_def isWhiteSpace_def)
  show ?thesis
    by (simp add: t trim_letter_spaces createTask_start_def)
qed

section \<open>The title of an update\<close>

text \<open>
  C10. When the patch of \<open>updateTask\<close> has a title \<open>t\<close> whose trimmed value is non-empty
  and at most 500 long (and the user id is present), the call is accepted, the request
  sent to the store carries the patch as it is, and the task that replaces a matching one
  has the title \<open>t\<close> itself, not \<open>trim t\<close>.
\<close>

theorem updateTask_title_verbatim:
  assumes "uid = Some u" and "u \<noteq> []"
    and "p_title updates = Given t" and "trim t \<noteq> []" and "length (trim t) \<le> 500"
  shows "updateTask_start uid taskId updates s =
           Inr (s\<lparr>error := None,
                  tasks := map (\<lambda>task. if task_id task = taskId then applyPatch updates task
                                        else task) (tasks s)\<rparr>,
                Update updates taskId u) \<and>
         title (applyPatch updates task) = Some t"
  using assms by (simp add: updateTask_start_def applyPatch_def)

theorem updateTask_title_verbatim_witness:
  "trim [0x20, 0x61, 0x20] = [0x61] \<and>
   updateTask_start (Some [7]) [1]
     \<lparr>p_title = Given [0x20, 0x61, 0x20], p_description = Missing, p_priority = Missing,
      p_due_date = Missing\<rparr>
     (initial_sync\<lparr>tasks := [example_task [1] [7] False]\<rparr>)
   = Inr (initial_sync\<lparr>tasks := [(example_task [1] [7] False)\<lparr>title := Some [0x20, 0x61, 0x20]\<rparr>]\<rparr>,
          Update \<lparr>p_title = Given [0x20, 0x61, 0x20], p_description = Missing,
                  p_priority = Missing, p_due_date = Missing\<rparr> [1] [7])"
proof -
  have t: "trim [0x20, 0x61, 0x20] = [0x61]"
    by (simp add: trim_def isWhiteSpace_def)
  show ?thesis
    using updateTask_title_verbatim [of "Some [7]" "[7]"
        "\<lparr>p_title = Given [0x20, 0x61, 0x20], p_description = Missing, p_priority = Missing,
          p_due_date = Missing\<rparr>" "[0x20, 0x61, 0x20]" "[1]"
        "initial_sync\<lparr>tasks := [example_task [1] [7] False]\<rparr>" "example_task [1] [7] False"]
    by (simp add: t applyPatch_def example_task_def initial_sync_def)
qed

section \<open>Session change, stale statistics and missing guards\<close>

lemmas run_simps =
  run_def init_def effect_def teardown_def cleanup_def fetchTasks_start_def initial_sync_def
  awaiting_def continue_def settle_def fetchTasks_resume_def handlePayload_def computeStats_def
  toggleTask_start_def toggleTask_resume_def example_task_def Let_def




text \<open>
  C4. The statistics are written by \<open>fetchTasks\<close> only. After an insert event on the empty
  collection the collection has one task and the statistics still count none; after the
  optimistic effect of \<open>toggleTask\<close> the task is complete and the statistics still count
  it as pending.
\<close>

theorem stats_stale_after_merge:
  "tasks (hook (run (\<lambda>d. None) (Some [7])
     [Resolve 0 \<lparr>data = Some [], err = None\<rparr> 0,
      Push (INSERT (example_task [1] [7] False))])) = [example_task [1] [7] False] \<and>
   stats (hook (run (\<lambda>d. None) (Some [7])
     [Resolve 0 \<lparr>data = Some [], err = None\<rparr> 0,
      Push (INSERT (example_task [1] [7] False))]))
     = \<lparr>total = 0, completed = 0, pending = 0, overdue = 0\<rparr> \<and>
   computeStats (\<lambda>d. None) 0 (Some [example_task [1] [7] False])
     = \<lparr>total = 1, completed = 0, pending = 1, overdue = 0\<rparr> \<and>
   tasks (hook (run (\<lambda>d. None) (Some [7])
     [Resolve 0 \<lparr>data = Some [example_task [1] [7] False], err = None\<rparr> 0,
      CallToggle [1] False])) = [example_task [1] [7] True] \<and>
   stats (hook (run (\<lambda>d. None) (Some [7])
     [Resolve 0 \<lparr>data = Some [example_task [1] [7] False], err = None\<rparr> 0,
      CallToggle [1] False]))
     = \<lparr>total = 1, completed = 0, pending = 1, overdue = 0\<rparr> \<and>
   computeStats (\<lambda>d. None) 0 (Some [example_task [1] [7] True])
     = \<lparr>total = 1, completed = 1, pending = 0, overdue = 0\<rparr>"
  by (simp add: run_simps isOverdue_def)

text \<open>
  C8. \<open>toggleTask\<close> has no guard on \<open>userId\<close>: with \<open>userId\<close> undefined it flips the task
  and issues the update with an undefined user filter, where \<open>deleteTask\<close> and
  \<open>updateTask\<close> throw.
\<close>

theorem toggle_without_user:
  "toggleTask_start None [1] False (initial_sync\<lparr>tasks := [example_task [1] [7] False]\<rparr>)
     = (initial_sync\<lparr>tasks := [example_task [1] [7] True]\<rparr>, UpdateComplete True [1] None) \<and>
   deleteTask_start None [1] (initial_sync\<lparr>tasks := [example_task [1] [7] False]\<rparr>)
     = Inl (TaskError ''User not authenticated'' None) \<and>
   updateTask_start None [1]
     \<lparr>p_title = Missing, p_description = Missing, p_priority = Given High,
      p_due_date = Missing\<rparr>
     (initial_sync\<lparr>tasks := [example_task [1] [7] False]\<rparr>)
     = Inl (TaskError ''User not authenticated'' None)"
  by (simp add: toggleTask_start_def deleteTask_start_def updateTask_start_def example_task_def)

text \<open>
  C9. The part of \<open>toggleTask\<close> after its \<open>await\<close> does not read the mounted flag: when
  the cleanup has run (the flag is false) and the store then answers with an error, the
  collection and the error slot are written all the same, after an unmount and after a
  render without a user id.
\<close>

theorem toggle_fails_after_teardown:
  "isMountedRef (hook (run (\<lambda>d. None) (Some [7])
     [Resolve 0 \<lparr>data = Some [example_task [1] [7] False], err = None\<rparr> 0,
      CallToggle [1] False, Unmount])) = False \<and>
   tasks (hook (run (\<lambda>d. None) (Some [7])
     [Resolve 0 \<lparr>data = Some [example_task [1] [7] False], err = None\<rparr> 0,
      CallToggle [1] False, Unmount])) = [example_task [1] [7] True] \<and>
   error (hook (run (\<lambda>d. None) (Some [7])
     [Resolve 0 \<lparr>data = Some [example_task [1] [7] False], err = None\<rparr> 0,
      CallToggle [1] False, Unmount])) = None \<and>
   tasks (hook (run (\<lambda>d. None) (Some [7])
     [Resolve 0 \<lparr>data = Some [example_task [1] [7] False], err = None\<rparr> 0,
      CallToggle [1] False, Unmount,
      Resolve 0 \<lparr>data = None, err = Some (PgError ''500'')\<rparr> 1])) = [example_task [1] [7] False] \<and>
   error (hook (run (\<lambda>d. None) (Some [7])
     [Resolve 0 \<lparr>data = Some [example_task [1] [7] False], err = None\<rparr> 0,
      CallToggle [1] False, Unmount,
      Resolve 0 \<lparr>data = None, err = Some (PgError ''500'')\<rparr> 1])) = Some ''Failed to toggle task'' \<and>
   userId (run (\<lambda>d. None) (Some [7])
     [Resolve 0 \<lparr>data = Some [example_task [1] [7] False], err = None\<rparr> 0,
      CallToggle [1] False, Rerender None]) = None \<and>
   error (hook (run (\<lambda>d. None) (Some [7])
     [Resolve 0 \<lparr>data = Some [example_task [1] [7] False], err = None\<rparr> 0,
      CallToggle [1] False, Rerender None])) = None \<and>
   error (hook (run (\<lambda>d. None) (Some [7])
     [Resolve 0 \<lparr>data = Some [example_task [1] [7] False], err = None\<rparr> 0,
      CallToggle [1] False, Rerender None,
      Resolve 0 \<lparr>data = None, err = Some (PgError ''500'')\<rparr> 1])) = Some ''Failed to toggle task''"
  by (simp add: run_simps)

end
